theory Spec2Isabelle
  imports Main "HOL-Library.Word"
begin

section \<open>Data model of \<open>lib/luacpustat.c\<close>\<close>

text \<open>
  Machine integers. The kernel counters are \<open>u64\<close>; a Lua integer (\<open>lua_Integer\<close>) is a
  64-bit two's complement value, read with \<open>sint\<close>; C's \<open>int\<close> and \<open>unsigned int\<close> are
  32 bits wide. A conversion between integer types of the same width keeps the bits, a
  conversion to a narrower type keeps the low bits (\<open>ucast\<close>).
\<close>

type_synonym u64 = "64 word"
type_synonym lua_Integer = "64 word"
type_synonym c_int = "32 word"
type_synonym c_uint = "32 word"

text \<open>
  \<open>enum cpu_usage_stat\<close> of \<open>linux/kernel_stat.h\<close>. The code uses the enumerators only as
  indices of the arrays \<open>cpustat[NR_STATS]\<close> and \<open>stats[NR_STATS]\<close>, so such an array is a
  total function on the enumeration. \<open>CPUTIME_FORCEIDLE\<close> is declared by the kernel only
  under \<open>CONFIG_SCHED_CORE\<close>; without it no registry entry names that slot.
\<close>

datatype cpu_usage_stat =
    CPUTIME_USER
  | CPUTIME_NICE
  | CPUTIME_SYSTEM
  | CPUTIME_SOFTIRQ
  | CPUTIME_IRQ
  | CPUTIME_IDLE
  | CPUTIME_IOWAIT
  | CPUTIME_STEAL
  | CPUTIME_GUEST
  | CPUTIME_GUEST_NICE
  | CPUTIME_FORCEIDLE

type_synonym stats_array = "cpu_usage_stat \<Rightarrow> u64"

record kernel_cpustat =
  cpustat :: stats_array

text \<open>One row \<open>{name, value}\<close> of a \<open>lunatik_reg_t\<close> table.\<close>

record lunatik_reg =
  reg_name :: string
  reg_value :: cpu_usage_stat

text \<open>
  The static table \<open>cpu_usage_stat[]\<close>, without its \<open>{NULL, 0}\<close> terminator: every loop of
  the source runs over the rows before the terminator, in order. The argument is
  \<open>CONFIG_SCHED_CORE\<close>.
\<close>

definition cpu_usage_stat :: "bool \<Rightarrow> lunatik_reg list" where
  "cpu_usage_stat sched_core =
     [\<lparr>reg_name = ''USER'', reg_value = CPUTIME_USER\<rparr>,
      \<lparr>reg_name = ''NICE'', reg_value = CPUTIME_NICE\<rparr>,
      \<lparr>reg_name = ''SYSTEM'', reg_value = CPUTIME_SYSTEM\<rparr>,
      \<lparr>reg_name = ''SOFTIRQ'', reg_value = CPUTIME_SOFTIRQ\<rparr>,
      \<lparr>reg_name = ''IRQ'', reg_value = CPUTIME_IRQ\<rparr>,
      \<lparr>reg_name = ''IDLE'', reg_value = CPUTIME_IDLE\<rparr>,
      \<lparr>reg_name = ''IOWAIT'', reg_value = CPUTIME_IOWAIT\<rparr>,
      \<lparr>reg_name = ''STEAL'', reg_value = CPUTIME_STEAL\<rparr>,
      \<lparr>reg_name = ''GUEST'', reg_value = CPUTIME_GUEST\<rparr>,
      \<lparr>reg_name = ''GUEST_NICE'', reg_value = CPUTIME_GUEST_NICE\<rparr>]
     @ (if sched_core then [\<lparr>reg_name = ''FORCEIDLE'', reg_value = CPUTIME_FORCEIDLE\<rparr>] else [])"

text \<open>
  What the module reads of the running kernel: the build option, \<open>nr_cpu_ids\<close> (an
  \<open>unsigned int\<close>), the bitmap \<open>cpu_possible_mask\<close> (bit \<open>i\<close> is element \<open>i\<close>), and the per-CPU
  variable behind \<open>kcpustat_cpu(cpu)\<close>.
\<close>

record kernel =
  CONFIG_SCHED_CORE :: bool
  nr_cpu_ids :: c_uint
  cpu_possible_mask :: "bool list"
  kcpustat_cpu :: "nat \<Rightarrow> kernel_cpustat"

text \<open>\<open>for_each_possible_cpu(i)\<close>: the set bits of the mask, in increasing order.\<close>

definition for_each_possible_cpu :: "kernel \<Rightarrow> nat list" where
  "for_each_possible_cpu k =
     filter (\<lambda>i. cpu_possible_mask k ! i) [0..<length (cpu_possible_mask k)]"

text \<open>
  The only error the module raises itself:
  \<open>luaL_error(L, "invalid CPU number: %d (max: %d)", cpu, nr_cpu_ids - 1)\<close>, kept as the two
  values that \<open>%d\<close> prints (both read as \<open>int\<close>).
\<close>

datatype lua_error = invalid_CPU_number (err_cpu: int) (err_max: int)

text \<open>The Lua table that \<open>get\<close> returns: \<open>lua_setfield\<close> binds a string key to a Lua integer.\<close>

type_synonym lua_table = "string \<rightharpoonup> lua_Integer"

section \<open>Operations\<close>

text \<open>
  \<open>luaL_optinteger(L, 1, def)\<close> on an absent (or nil) argument yields \<open>def\<close>, on an integer
  argument its value. A call whose argument has no integer representation is rejected by the
  Lua library before the module's code runs and is not an input here.
\<close>

definition luaL_optinteger :: "lua_Integer option \<Rightarrow> lua_Integer \<Rightarrow> lua_Integer" where
  "luaL_optinteger arg def = (case arg of None \<Rightarrow> def | Some i \<Rightarrow> i)"

text \<open>The first inner loop: \<open>stats[cputime_idx] = kcs.cpustat[cputime_idx]\<close> for each row.\<close>

primrec copy_stats :: "lunatik_reg list \<Rightarrow> kernel_cpustat \<Rightarrow> stats_array \<Rightarrow> stats_array" where
  "copy_stats [] kcs stats = stats"
| "copy_stats (r # rs) kcs stats =
     copy_stats rs kcs (stats(reg_value r := cpustat kcs (reg_value r)))"

text \<open>The second inner loop: \<open>stats[cputime_idx] += kcs.cpustat[cputime_idx]\<close> for each row.\<close>

primrec add_stats :: "lunatik_reg list \<Rightarrow> kernel_cpustat \<Rightarrow> stats_array \<Rightarrow> stats_array" where
  "add_stats [] kcs stats = stats"
| "add_stats (r # rs) kcs stats =
     add_stats rs kcs (stats(reg_value r := stats (reg_value r) + cpustat kcs (reg_value r)))"

text \<open>The outer loop over the possible CPUs: \<open>kcs = kcpustat_cpu(i)\<close>, then the inner loop.\<close>

primrec aggregate_stats ::
  "lunatik_reg list \<Rightarrow> (nat \<Rightarrow> kernel_cpustat) \<Rightarrow> nat list \<Rightarrow> stats_array \<Rightarrow> stats_array" where
  "aggregate_stats regs kc [] stats = stats"
| "aggregate_stats regs kc (i # cpus) stats =
     aggregate_stats regs kc cpus (add_stats regs (kc i) stats)"

text \<open>\<open>(*src >= 'A' && *src <= 'Z') ? (*src + 32) : *src\<close>\<close>

definition lower_char :: "char \<Rightarrow> char" where
  "lower_char c =
     (if (of_char (CHR ''A'') :: nat) \<le> of_char c \<and> (of_char c :: nat) \<le> of_char (CHR ''Z'')
      then char_of (of_char c + 32 :: nat) else c)"

text \<open>
  The copy loop into \<open>char field_name[32]\<close>; the first argument is \<open>dst - field_name\<close>, and
  the loop stops at the end of \<open>src\<close> or after \<open>sizeof(field_name) - 1\<close> characters.
\<close>

fun lower_copy :: "nat \<Rightarrow> string \<Rightarrow> string" where
  "lower_copy n [] = []"
| "lower_copy n (c # src) = (if n < 32 - 1 then lower_char c # lower_copy (Suc n) src else [])"

definition field_name :: "string \<Rightarrow> string" where
  "field_name src = lower_copy 0 src"

text \<open>
  The last loop: for each row, \<open>lua_pushinteger(L, (lua_Integer)stats[value])\<close> and
  \<open>lua_setfield(L, table, field_name)\<close>. The cast keeps the 64 bits.
\<close>

primrec set_fields :: "lunatik_reg list \<Rightarrow> stats_array \<Rightarrow> lua_table \<Rightarrow> lua_table" where
  "set_fields [] stats t = t"
| "set_fields (r # rs) stats t =
     set_fields rs stats (t(field_name (reg_name r) \<mapsto> (ucast (stats (reg_value r)) :: lua_Integer)))"

text \<open>
  \<open>luacpustat_get\<close>. \<open>int cpu = luaL_optinteger(L, 1, -1)\<close> narrows the Lua integer to 32
  bits; \<open>cpu >= 0\<close> is a signed test; in \<open>cpu >= nr_cpu_ids\<close> the \<open>int\<close> is converted to
  \<open>unsigned int\<close>; \<open>nr_cpu_ids - 1\<close> is computed in \<open>unsigned int\<close>.
\<close>

definition luacpustat_get :: "kernel \<Rightarrow> lua_Integer option \<Rightarrow> lua_error + lua_table" where
  "luacpustat_get k arg =
     (let cpu = (ucast (luaL_optinteger arg (- 1)) :: c_int);
          regs = cpu_usage_stat (CONFIG_SCHED_CORE k);
          stats = (\<lambda>_. 0) :: stats_array
      in if 0 \<le> sint cpu then
           if nr_cpu_ids k \<le> cpu then
             Inl (invalid_CPU_number (sint cpu) (sint (nr_cpu_ids k - 1)))
           else
             (let kcs = kcpustat_cpu k (unat cpu);
                  stats = copy_stats regs kcs stats
              in Inr (set_fields regs stats Map.empty))
         else
           (let stats = aggregate_stats regs (kcpustat_cpu k) (for_each_possible_cpu k) stats
            in Inr (set_fields regs stats Map.empty)))"

text \<open>\<open>luacpustat_count\<close>: \<open>lua_pushinteger(L, (lua_Integer)nr_cpu_ids)\<close>, a zero extension.\<close>

definition luacpustat_count :: "kernel \<Rightarrow> lua_Integer" where
  "luacpustat_count k = ucast (nr_cpu_ids k)"

section \<open>The earlier \<open>luacpustat_get\<close>, with one variable per counter\<close>

text \<open>
  An earlier version of the module (the source file \<open>unnamed/part_001\<close>) has no registry: it
  reads ten counters into ten locals and stores them under ten literal field names. It does
  not know \<open>CPUTIME_FORCEIDLE\<close>.
\<close>

text \<open>
  The locals \<open>u64 user, nice, system, idle, iowait, irq, softirq, steal, guest, guest_nice\<close>.
\<close>

record counters =
  user :: u64
  nice :: u64
  system :: u64
  idle :: u64
  iowait :: u64
  irq :: u64
  softirq :: u64
  steal :: u64
  guest :: u64
  guest_nice :: u64

text \<open>
  The single-processor branch: \<open>kcpustat = &kcpustat_cpu(cpu)\<close> and one assignment
  \<open>user = kcpustat->cpustat[CPUTIME_USER]\<close> per counter.
\<close>

definition read_counters :: "kernel_cpustat \<Rightarrow> counters" where
  "read_counters kcpustat =
     \<lparr>user = cpustat kcpustat CPUTIME_USER,
      nice = cpustat kcpustat CPUTIME_NICE,
      system = cpustat kcpustat CPUTIME_SYSTEM,
      idle = cpustat kcpustat CPUTIME_IDLE,
      iowait = cpustat kcpustat CPUTIME_IOWAIT,
      irq = cpustat kcpustat CPUTIME_IRQ,
      softirq = cpustat kcpustat CPUTIME_SOFTIRQ,
      steal = cpustat kcpustat CPUTIME_STEAL,
      guest = cpustat kcpustat CPUTIME_GUEST,
      guest_nice = cpustat kcpustat CPUTIME_GUEST_NICE\<rparr>"

text \<open>The body of the aggregating loop: one \<open>+=\<close> per counter.\<close>

definition add_counters :: "kernel_cpustat \<Rightarrow> counters \<Rightarrow> counters" where
  "add_counters kcpustat c =
     \<lparr>user = user c + cpustat kcpustat CPUTIME_USER,
      nice = nice c + cpustat kcpustat CPUTIME_NICE,
      system = system c + cpustat kcpustat CPUTIME_SYSTEM,
      idle = idle c + cpustat kcpustat CPUTIME_IDLE,
      iowait = iowait c + cpustat kcpustat CPUTIME_IOWAIT,
      irq = irq c + cpustat kcpustat CPUTIME_IRQ,
      softirq = softirq c + cpustat kcpustat CPUTIME_SOFTIRQ,
      steal = steal c + cpustat kcpustat CPUTIME_STEAL,
      guest = guest c + cpustat kcpustat CPUTIME_GUEST,
      guest_nice = guest_nice c + cpustat kcpustat CPUTIME_GUEST_NICE\<rparr>"

text \<open>\<open>for_each_possible_cpu(i)\<close> around that body.\<close>

primrec sum_counters :: "(nat \<Rightarrow> kernel_cpustat) \<Rightarrow> nat list \<Rightarrow> counters \<Rightarrow> counters" where
  "sum_counters kc [] c = c"
| "sum_counters kc (i # cpus) c = sum_counters kc cpus (add_counters (kc i) c)"

text \<open>\<open>user = nice = ... = guest_nice = 0\<close>\<close>

definition zero_counters :: counters where
  "zero_counters =
     \<lparr>user = 0, nice = 0, system = 0, idle = 0, iowait = 0, irq = 0, softirq = 0, steal = 0,
      guest = 0, guest_nice = 0\<rparr>"

text \<open>
  The ten pairs \<open>lua_pushinteger(L, (lua_Integer)user); lua_setfield(L, table, "user")\<close>, in
  the order of the source.
\<close>

definition push_counters :: "counters \<Rightarrow> lua_table" where
  "push_counters c =
     Map.empty
       (''user'' \<mapsto> ucast (user c),
        ''nice'' \<mapsto> ucast (nice c),
        ''system'' \<mapsto> ucast (system c),
        ''idle'' \<mapsto> ucast (idle c),
        ''iowait'' \<mapsto> ucast (iowait c),
        ''irq'' \<mapsto> ucast (irq c),
        ''softirq'' \<mapsto> ucast (softirq c),
        ''steal'' \<mapsto> ucast (steal c),
        ''guest'' \<mapsto> ucast (guest c),
        ''guest_nice'' \<mapsto> ucast (guest_nice c))"

text \<open>The earlier \<open>luacpustat_get\<close>; the argument handling and the range check are the same.\<close>

definition luacpustat_get_old :: "kernel \<Rightarrow> lua_Integer option \<Rightarrow> lua_error + lua_table" where
  "luacpustat_get_old k arg =
     (let cpu = (ucast (luaL_optinteger arg (- 1)) :: c_int)
      in if 0 \<le> sint cpu then
           if nr_cpu_ids k \<le> cpu then
             Inl (invalid_CPU_number (sint cpu) (sint (nr_cpu_ids k - 1)))
           else
             (let kcpustat = kcpustat_cpu k (unat cpu)
              in Inr (push_counters (read_counters kcpustat)))
         else
           Inr (push_counters
                  (sum_counters (kcpustat_cpu k) (for_each_possible_cpu k) zero_counters)))"

section \<open>Test systems\<close>

text \<open>
  A 4-processor system without core scheduling: on processor \<open>c\<close> the idle counter is
  \<open>10 + c\<close> and every other counter is \<open>c\<close>.
\<close>

definition kernel4 :: kernel where
  "kernel4 =
     \<lparr>CONFIG_SCHED_CORE = False, nr_cpu_ids = 4,
      cpu_possible_mask = [True, True, True, True],
      kcpustat_cpu =
        (\<lambda>c. \<lparr>cpustat = (\<lambda>idx. if idx = CPUTIME_IDLE then of_nat (10 + c) else of_nat c)\<rparr>)\<rparr>"

text \<open>
  A 2-processor system with core scheduling whose idle counters have reached \<open>2 ^ 63\<close>;
  every other counter is 1.
\<close>

definition kernel_hi :: kernel where
  "kernel_hi =
     \<lparr>CONFIG_SCHED_CORE = True, nr_cpu_ids = 2,
      cpu_possible_mask = [True, True],
      kcpustat_cpu =
        (\<lambda>c. \<lparr>cpustat = (\<lambda>idx. if idx = CPUTIME_IDLE then 2 ^ 63 else 1)\<rparr>)\<rparr>"

section \<open>The loops of \<open>luacpustat_get\<close>\<close>

lemma copy_stats_apply:
  "copy_stats regs kcs stats idx =
     (if idx \<in> reg_value ` set regs then cpustat kcs idx else stats idx)"
  by (induction regs arbitrary: stats) auto

lemma add_stats_apply:
  "distinct (map reg_value regs) \<Longrightarrow>
   add_stats regs kcs stats idx =
     (if idx \<in> reg_value ` set regs then stats idx + cpustat kcs idx else stats idx)"
  by (induction regs arbitrary: stats) auto

lemma aggregate_stats_apply:
  "distinct (map reg_value regs) \<Longrightarrow>
   aggregate_stats regs kc cpus stats idx =
     (if idx \<in> reg_value ` set regs
      then stats idx + sum_list (map (\<lambda>c. cpustat (kc c) idx) cpus) else stats idx)"
  by (induction cpus arbitrary: stats) (auto simp: add_stats_apply add.assoc)

lemma dom_set_fields:
  "dom (set_fields regs stats t) = dom t \<union> (\<lambda>r. field_name (reg_name r)) ` set regs"
  by (induction regs arbitrary: t) auto

lemma set_fields_other:
  "key \<notin> (\<lambda>r. field_name (reg_name r)) ` set regs \<Longrightarrow> set_fields regs stats t key = t key"
  by (induction regs arbitrary: t) auto

lemma set_fields_apply:
  "distinct (map (\<lambda>r. field_name (reg_name r)) regs) \<Longrightarrow> r \<in> set regs \<Longrightarrow>
   set_fields regs stats t (field_name (reg_name r)) = Some (stats (reg_value r))"
proof (induction regs arbitrary: t)
  case Nil
  then show ?case by simp
next
  case (Cons a regs)
  show ?case
  proof (cases "r \<in> set regs")
    case True
    with Cons show ?thesis by simp
  next
    case False
    with Cons.prems have ra: "r = a" by simp
    have "field_name (reg_name a) \<notin> (\<lambda>r. field_name (reg_name r)) ` set regs"
      using Cons.prems(1) by auto
    then show ?thesis using ra by (simp add: set_fields_other)
  qed
qed

section \<open>The registry\<close>

lemma field_names_sched_core:
  "map (\<lambda>r. field_name (reg_name r)) (cpu_usage_stat True) =
     [''user'', ''nice'', ''system'', ''softirq'', ''irq'', ''idle'', ''iowait'', ''steal'',
      ''guest'', ''guest_nice'', ''forceidle'']"
  by code_simp

lemma field_names_no_sched_core:
  "map (\<lambda>r. field_name (reg_name r)) (cpu_usage_stat False) =
     [''user'', ''nice'', ''system'', ''softirq'', ''irq'', ''idle'', ''iowait'', ''steal'',
      ''guest'', ''guest_nice'']"
  by code_simp

lemma field_names:
  "map (\<lambda>r. field_name (reg_name r)) (cpu_usage_stat b) =
     [''user'', ''nice'', ''system'', ''softirq'', ''irq'', ''idle'', ''iowait'', ''steal'',
      ''guest'', ''guest_nice''] @ (if b then [''forceidle''] else [])"
  by (cases b) (simp_all add: field_names_sched_core field_names_no_sched_core)

lemma distinct_field_names:
  "distinct (map (\<lambda>r. field_name (reg_name r)) (cpu_usage_stat b))"
  by (simp add: field_names)

lemma distinct_reg_values: "distinct (map reg_value (cpu_usage_stat b))"
  by (simp add: cpu_usage_stat_def)

lemma length_cpu_usage_stat: "length (cpu_usage_stat b) = (if b then 11 else 10)"
  by (simp add: cpu_usage_stat_def)

lemma lower_copy_take: "lower_copy n src = map lower_char (take (31 - n) src)"
proof (induction src arbitrary: n)
  case Nil
  then show ?case by simp
next
  case (Cons c src)
  show ?case
  proof (cases "n < 31")
    case True
    then have "31 - n = Suc (31 - Suc n)" by simp
    with True Cons show ?thesis by simp
  next
    case False
    then show ?thesis by simp
  qed
qed

lemma field_name_short: "length src \<le> 31 \<Longrightarrow> field_name src = map lower_char src"
  by (simp add: field_name_def lower_copy_take)

lemma reg_names_short: "r \<in> set (cpu_usage_stat b) \<Longrightarrow> length (reg_name r) \<le> 31"
  by (auto simp: cpu_usage_stat_def split: if_splits)

lemma lower_char_alphabet:
  "map lower_char ''ABCDEFGHIJKLMNOPQRSTUVWXYZ'' = ''abcdefghijklmnopqrstuvwxyz''"
  "map lower_char ''abcdefghijklmnopqrstuvwxyz_0123456789'' = ''abcdefghijklmnopqrstuvwxyz_0123456789''"
  by code_simp+

lemma field_name_image:
  "(\<lambda>r. field_name (reg_name r)) ` set (cpu_usage_stat b) =
     {''user'', ''nice'', ''system'', ''idle'', ''iowait'', ''irq'', ''softirq'', ''steal'',
      ''guest'', ''guest_nice''} \<union> (if b then {''forceidle''} else {})"
proof -
  have "(\<lambda>r. field_name (reg_name r)) ` set (cpu_usage_stat b) =
      set (map (\<lambda>r. field_name (reg_name r)) (cpu_usage_stat b))" by simp
  then show ?thesis unfolding field_names by auto
qed

section \<open>Integer conversions\<close>

lemma sint_narrow:
  assumes "- (2 ^ 31) \<le> sint (i :: 64 word)" and "sint i < 2 ^ 31"
  shows "sint (ucast i :: 32 word) = sint i"
proof -
  have "(ucast :: 64 word \<Rightarrow> 32 word) = scast"
    by (rule down_cast_same) (simp add: is_down)
  then have "sint (ucast i :: 32 word) = signed_take_bit 31 (sint i)"
    by (simp add: signed_scast_eq)
  with assms show ?thesis
    by (simp add: signed_take_bit_int_eq_self)
qed

lemma uint_eq_sint:
  assumes "0 \<le> sint (w :: 'a::len word)"
  shows "uint w = sint w"
proof -
  have "sint w < 2 ^ (LENGTH('a) - 1)" by (rule sint_lt)
  also have "\<dots> \<le> (2::int) ^ LENGTH('a)" by (rule power_increasing) simp_all
  finally have "sint w < 2 ^ LENGTH('a)" .
  with assms have "take_bit LENGTH('a) (sint w) = sint w"
    by (simp add: take_bit_int_eq_self)
  then show ?thesis by (simp add: uint_sint)
qed

lemma uint_narrow:
  assumes "0 \<le> sint (i :: 64 word)" and "sint i < 2 ^ 31"
  shows "uint (ucast i :: 32 word) = sint i"
proof -
  have "sint (ucast i :: 32 word) = sint i"
    using assms by (intro sint_narrow) simp_all
  with assms(1) show ?thesis
    using uint_eq_sint [of "ucast i :: 32 word"] by simp
qed

lemma sint_zero_extend: "sint (ucast (w :: 32 word) :: 64 word) = uint w"
proof -
  have "uint w < 2 ^ 32" using uint_bounded [of w] by simp
  then have "uint w < 2 ^ 63" by simp
  moreover have "- (2 ^ 63) \<le> uint w"
    by (rule order_trans [OF _ uint_nonnegative]) simp
  ultimately have "signed_take_bit 63 (uint w) = uint w"
    by (intro signed_take_bit_int_eq_self) simp_all
  then show ?thesis by (simp add: signed_ucast_eq)
qed

lemma sint_count: "sint (luacpustat_count k) = uint (nr_cpu_ids k)"
  by (simp add: luacpustat_count_def sint_zero_extend)

section \<open>The three paths of \<open>luacpustat_get\<close>\<close>

text \<open>An index that fits C's \<open>int\<close> and is below \<open>nr_cpu_ids\<close> selects that processor.\<close>

lemma get_single:
  assumes "0 \<le> sint i" and "sint i < 2 ^ 31" and "sint i < uint (nr_cpu_ids k)"
  shows "luacpustat_get k (Some i) =
     Inr (set_fields (cpu_usage_stat (CONFIG_SCHED_CORE k))
            (copy_stats (cpu_usage_stat (CONFIG_SCHED_CORE k))
               (kcpustat_cpu k (nat (sint i))) (\<lambda>_. 0)) Map.empty)"
proof -
  have s: "sint (ucast i :: 32 word) = sint i"
    using assms by (intro sint_narrow) simp_all
  have u: "uint (ucast i :: 32 word) = sint i"
    using assms by (intro uint_narrow)
  have "\<not> nr_cpu_ids k \<le> (ucast i :: 32 word)"
    using assms(3) u by (simp add: word_le_def)
  moreover have "unat (ucast i :: 32 word) = nat (sint i)"
    unfolding unat_eq_nat_uint u ..
  ultimately show ?thesis
    using assms(1) s by (simp add: luacpustat_get_def luaL_optinteger_def Let_def)
qed

text \<open>An index that fits C's \<open>int\<close> and is not below \<open>nr_cpu_ids\<close> raises the error.\<close>

lemma get_error:
  assumes "0 \<le> sint i" and "sint i < 2 ^ 31" and "uint (nr_cpu_ids k) \<le> sint i"
  shows "luacpustat_get k (Some i) =
     Inl (invalid_CPU_number (sint i) (sint (nr_cpu_ids k - 1)))"
proof -
  have s: "sint (ucast i :: 32 word) = sint i"
    using assms by (intro sint_narrow) simp_all
  have u: "uint (ucast i :: 32 word) = sint i"
    using assms by (intro uint_narrow)
  have "nr_cpu_ids k \<le> (ucast i :: 32 word)"
    using assms(3) u by (simp add: word_le_def)
  then show ?thesis
    using assms(1) s by (simp add: luacpustat_get_def luaL_optinteger_def Let_def)
qed

text \<open>No argument, or a negative one that fits C's \<open>int\<close>, selects the aggregate.\<close>

lemma get_aggregate:
  assumes "sint (ucast (luaL_optinteger arg (- 1)) :: 32 word) < 0"
  shows "luacpustat_get k arg =
     Inr (set_fields (cpu_usage_stat (CONFIG_SCHED_CORE k))
            (aggregate_stats (cpu_usage_stat (CONFIG_SCHED_CORE k)) (kcpustat_cpu k)
               (for_each_possible_cpu k) (\<lambda>_. 0)) Map.empty)"
  using assms by (simp add: luacpustat_get_def Let_def)

lemma get_aggregate_negative:
  assumes "- (2 ^ 31) \<le> sint i" and "sint i < 0"
  shows "luacpustat_get k (Some i) =
     Inr (set_fields (cpu_usage_stat (CONFIG_SCHED_CORE k))
            (aggregate_stats (cpu_usage_stat (CONFIG_SCHED_CORE k)) (kcpustat_cpu k)
               (for_each_possible_cpu k) (\<lambda>_. 0)) Map.empty)"
proof -
  have "sint (ucast i :: 32 word) = sint i"
    using assms by (intro sint_narrow) simp_all
  with assms(2) show ?thesis
    by (intro get_aggregate) (simp add: luaL_optinteger_def)
qed

lemma get_aggregate_none:
  "luacpustat_get k None =
     Inr (set_fields (cpu_usage_stat (CONFIG_SCHED_CORE k))
            (aggregate_stats (cpu_usage_stat (CONFIG_SCHED_CORE k)) (kcpustat_cpu k)
               (for_each_possible_cpu k) (\<lambda>_. 0)) Map.empty)"
proof -
  have "sint (ucast (- 1 :: 64 word) :: 32 word) = sint (- 1 :: 64 word)"
    by (rule sint_narrow) simp_all
  then show ?thesis
    by (intro get_aggregate) (simp add: luaL_optinteger_def)
qed

text \<open>Whatever the argument, a returned table is built by the last loop from the registry.\<close>

lemma get_Inr_set_fields:
  assumes "luacpustat_get k arg = Inr t"
  shows "\<exists>stats. t = set_fields (cpu_usage_stat (CONFIG_SCHED_CORE k)) stats Map.empty"
  using assms by (auto simp: luacpustat_get_def Let_def split: if_splits)

section \<open>Further facts about \<open>luacpustat_get\<close>\<close>

lemma get_fails_iff:
  assumes "0 \<le> sint i" and "sint i < 2 ^ 31"
  shows "isl (luacpustat_get k (Some i)) \<longleftrightarrow> sint (luacpustat_count k) \<le> sint i"
proof (cases "sint i < uint (nr_cpu_ids k)")
  case True
  with assms show ?thesis by (simp add: get_single sint_count)
next
  case False
  with assms show ?thesis by (simp add: get_error sint_count)
qed

lemma get_succeeds:
  assumes "arg = None \<or>
     (\<exists>i. arg = Some i \<and> - (2 ^ 31) \<le> sint i \<and> sint i < 2 ^ 31 \<and> sint i < uint (nr_cpu_ids k))"
  shows "\<exists>t. luacpustat_get k arg = Inr t"
proof (cases arg)
  case None
  then show ?thesis by (simp add: get_aggregate_none)
next
  case (Some i)
  with assms have r: "- (2 ^ 31) \<le> sint i" "sint i < 2 ^ 31" "sint i < uint (nr_cpu_ids k)"
    by simp_all
  show ?thesis
  proof (cases "sint i < 0")
    case True
    with r Some show ?thesis by (simp add: get_aggregate_negative)
  next
    case False
    with r Some show ?thesis by (simp add: get_single)
  qed
qed

lemma set_for_each_possible_cpu:
  "set (for_each_possible_cpu k) =
     {c. c < length (cpu_possible_mask k) \<and> cpu_possible_mask k ! c}"
  by (auto simp: for_each_possible_cpu_def)

lemma distinct_for_each_possible_cpu: "distinct (for_each_possible_cpu k)"
  by (simp add: for_each_possible_cpu_def)

lemma aggregate_table_apply:
  assumes "r \<in> set (cpu_usage_stat b)"
  shows "set_fields (cpu_usage_stat b)
           (aggregate_stats (cpu_usage_stat b) kc cpus (\<lambda>_. 0)) Map.empty
           (field_name (reg_name r)) =
         Some (sum_list (map (\<lambda>c. cpustat (kc c) (reg_value r)) cpus))"
  using assms
  by (simp add: set_fields_apply distinct_field_names aggregate_stats_apply distinct_reg_values)

lemma get_aggregate_sums:
  assumes "arg = None \<or> (\<exists>i. arg = Some i \<and> - (2 ^ 31) \<le> sint i \<and> sint i < 0)"
  shows "\<exists>t. luacpustat_get k arg = Inr t \<and>
     (\<forall>r \<in> set (cpu_usage_stat (CONFIG_SCHED_CORE k)).
        t (field_name (reg_name r)) =
          Some (sum_list (map (\<lambda>c. cpustat (kcpustat_cpu k c) (reg_value r))
                              (for_each_possible_cpu k))))"
proof -
  let ?regs = "cpu_usage_stat (CONFIG_SCHED_CORE k)"
  from assms have "luacpustat_get k arg =
     Inr (set_fields ?regs
            (aggregate_stats ?regs (kcpustat_cpu k) (for_each_possible_cpu k) (\<lambda>_. 0)) Map.empty)"
    using get_aggregate_none get_aggregate_negative by blast
  then show ?thesis by (simp add: aggregate_table_apply)
qed

lemma field_name_IDLE: "field_name ''IDLE'' = ''idle''"
  by code_simp

lemma idle_row: "\<lparr>reg_name = ''IDLE'', reg_value = CPUTIME_IDLE\<rparr> \<in> set (cpu_usage_stat b)"
  by (simp add: cpu_usage_stat_def)

lemma idle_value: "CPUTIME_IDLE \<in> reg_value ` set (cpu_usage_stat b)"
  by (simp add: cpu_usage_stat_def)

lemma get_cong_cpu:
  "(ucast (luaL_optinteger a (- 1)) :: c_int) = ucast (luaL_optinteger b (- 1)) \<Longrightarrow>
   luacpustat_get k a = luacpustat_get k b"
  by (simp add: luacpustat_get_def)

lemma set_fields_idle:
  "set_fields (cpu_usage_stat b) stats Map.empty ''idle'' = Some (stats CPUTIME_IDLE)"
  using set_fields_apply [OF distinct_field_names idle_row, of b stats Map.empty]
  by (simp add: field_name_IDLE)

lemma kernel4_possible: "for_each_possible_cpu kernel4 = [0, 1, 2, 3]"
  by code_simp

lemma kernel4_cpu0_idle:
  "\<exists>t. luacpustat_get kernel4 (Some 0) = Inr t \<and> t ''idle'' = Some 10"
proof -
  have "sint (0 :: lua_Integer) < uint (nr_cpu_ids kernel4)"
    by (simp add: kernel4_def)
  then have "luacpustat_get kernel4 (Some 0) =
     Inr (set_fields (cpu_usage_stat (CONFIG_SCHED_CORE kernel4))
            (copy_stats (cpu_usage_stat (CONFIG_SCHED_CORE kernel4))
               (kcpustat_cpu kernel4 (nat (sint (0 :: lua_Integer)))) (\<lambda>_. 0)) Map.empty)"
    by (intro get_single) simp_all
  moreover have "copy_stats (cpu_usage_stat b) (kcpustat_cpu kernel4 0) (\<lambda>_. 0) CPUTIME_IDLE = 10" for b
    by (simp add: copy_stats_apply idle_value kernel4_def)
  ultimately show ?thesis by (simp add: set_fields_idle)
qed

lemma kernel4_all_idle:
  "\<exists>t. luacpustat_get kernel4 None = Inr t \<and> t ''idle'' = Some 46"
proof -
  have "aggregate_stats (cpu_usage_stat b) (kcpustat_cpu kernel4) [0, 1, 2, 3] (\<lambda>_. 0) CPUTIME_IDLE =
      0 + sum_list (map (\<lambda>c. cpustat (kcpustat_cpu kernel4 c) CPUTIME_IDLE) [0, 1, 2, 3])" for b
    by (simp only: aggregate_stats_apply [OF distinct_reg_values] idle_value if_True)
  then have "aggregate_stats (cpu_usage_stat b) (kcpustat_cpu kernel4) [0, 1, 2, 3] (\<lambda>_. 0) CPUTIME_IDLE = 46" for b
    by (simp add: kernel4_def)
  then show ?thesis
    by (simp add: get_aggregate_none kernel4_possible set_fields_idle)
qed

lemma uint_sum_list:
  "uint (sum_list (ws :: 'a::len word list)) = sum_list (map uint ws) mod 2 ^ LENGTH('a)"
proof (induction ws)
  case Nil
  then show ?case by simp
next
  case (Cons w ws)
  have "uint (w + sum_list ws) = (uint w + uint (sum_list ws)) mod 2 ^ LENGTH('a)"
    by (rule uint_word_ariths)
  also have "\<dots> = (uint w + sum_list (map uint ws)) mod 2 ^ LENGTH('a)"
    unfolding Cons.IH by (rule mod_add_right_eq)
  finally show ?case by simp
qed

lemma sint_of_uint64:
  "sint (v :: 64 word) = (if uint v < 2 ^ 63 then uint v else uint v - 2 ^ 64)"
proof -
  have u: "uint v = sint v mod 2 ^ 64"
    by (simp add: uint_sint take_bit_eq_mod)
  have lo: "- (2 ^ 63) \<le> sint v" using sint_ge [of v] by simp
  have hi: "sint v < 2 ^ 63" using sint_lt [of v] by simp
  show ?thesis
  proof (cases "0 \<le> sint v")
    case True
    with hi have "sint v mod 2 ^ 64 = sint v" by (intro mod_pos_pos_trivial) simp_all
    with u hi show ?thesis by simp
  next
    case False
    with lo have "(sint v + 2 ^ 64) mod 2 ^ 64 = sint v + 2 ^ 64"
      by (intro mod_pos_pos_trivial) simp_all
    then have "sint v mod 2 ^ 64 = sint v + 2 ^ 64" by simp
    with u lo show ?thesis by simp
  qed
qed

text \<open>
  An index within \<open>[0, count())\<close> selects that processor: every field holds the 64 bits of
  the processor's counter. (The kernel keeps \<open>nr_cpu_ids\<close> within \<open>CONFIG_NR_CPUS\<close>, far
  below the bound \<open>2 ^ 31\<close> assumed here.)
\<close>

lemma get_single_values:
  assumes "uint (nr_cpu_ids k) \<le> 2 ^ 31"
    and "0 \<le> sint i" and "sint i \<le> sint (luacpustat_count k) - 1"
  shows "\<exists>t. luacpustat_get k (Some i) = Inr t \<and>
     (\<forall>r \<in> set (cpu_usage_stat (CONFIG_SCHED_CORE k)).
        t (field_name (reg_name r)) =
          Some (cpustat (kcpustat_cpu k (nat (sint i))) (reg_value r)))"
proof -
  let ?regs = "cpu_usage_stat (CONFIG_SCHED_CORE k)"
  let ?kcs = "kcpustat_cpu k (nat (sint i))"
  from assms(3) have lt: "sint i < uint (nr_cpu_ids k)"
    by (simp add: sint_count)
  with assms(1) have "sint i < 2 ^ 31" by linarith
  then have
    get: "luacpustat_get k (Some i) = Inr (set_fields ?regs (copy_stats ?regs ?kcs (\<lambda>_. 0)) Map.empty)"
    using assms(2) lt by (intro get_single)
  have "set_fields ?regs (copy_stats ?regs ?kcs (\<lambda>_. 0)) Map.empty (field_name (reg_name r)) =
          Some (cpustat ?kcs (reg_value r))" if "r \<in> set ?regs" for r
    using that by (simp add: set_fields_apply distinct_field_names copy_stats_apply)
  with get show ?thesis by blast
qed

text \<open>Read as a Lua integer, such a field equals the counter exactly when it is below \<open>2 ^ 63\<close>.\<close>

lemma get_single_signed:
  assumes "uint (nr_cpu_ids k) \<le> 2 ^ 31"
    and "0 \<le> sint i" and "sint i \<le> sint (luacpustat_count k) - 1"
  shows "\<exists>t. luacpustat_get k (Some i) = Inr t \<and>
     (\<forall>r \<in> set (cpu_usage_stat (CONFIG_SCHED_CORE k)).
        \<exists>v. t (field_name (reg_name r)) = Some v \<and>
          sint v =
            (if uint (cpustat (kcpustat_cpu k (nat (sint i))) (reg_value r)) < 2 ^ 63
             then uint (cpustat (kcpustat_cpu k (nat (sint i))) (reg_value r))
             else uint (cpustat (kcpustat_cpu k (nat (sint i))) (reg_value r)) - 2 ^ 64))"
proof -
  from get_single_values [OF assms] obtain t where
    t: "luacpustat_get k (Some i) = Inr t"
    and f: "\<forall>r \<in> set (cpu_usage_stat (CONFIG_SCHED_CORE k)).
        t (field_name (reg_name r)) =
          Some (cpustat (kcpustat_cpu k (nat (sint i))) (reg_value r))"
    by blast
  from f have "\<forall>r \<in> set (cpu_usage_stat (CONFIG_SCHED_CORE k)).
        \<exists>v. t (field_name (reg_name r)) = Some v \<and>
          sint v =
            (if uint (cpustat (kcpustat_cpu k (nat (sint i))) (reg_value r)) < 2 ^ 63
             then uint (cpustat (kcpustat_cpu k (nat (sint i))) (reg_value r))
             else uint (cpustat (kcpustat_cpu k (nat (sint i))) (reg_value r)) - 2 ^ 64)"
    using sint_of_uint64 by blast
  with t show ?thesis by blast
qed

text \<open>
  With no argument, or a negative one that fits C's \<open>int\<close>, every field holds the sum of its
  counter over the possible processors, modulo \<open>2 ^ 64\<close>.
\<close>

lemma get_aggregate_sums_mod:
  assumes "arg = None \<or> (\<exists>i. arg = Some i \<and> - (2 ^ 31) \<le> sint i \<and> sint i < 0)"
  shows "\<exists>t. luacpustat_get k arg = Inr t \<and>
     (\<forall>r \<in> set (cpu_usage_stat (CONFIG_SCHED_CORE k)).
        \<exists>v. t (field_name (reg_name r)) = Some v \<and>
          uint v =
            (\<Sum>c\<leftarrow>for_each_possible_cpu k. uint (cpustat (kcpustat_cpu k c) (reg_value r)))
              mod 2 ^ 64)"
proof -
  from get_aggregate_sums [OF assms] obtain t where
    t: "luacpustat_get k arg = Inr t"
    and f: "\<forall>r \<in> set (cpu_usage_stat (CONFIG_SCHED_CORE k)).
        t (field_name (reg_name r)) =
          Some (sum_list (map (\<lambda>c. cpustat (kcpustat_cpu k c) (reg_value r))
                              (for_each_possible_cpu k)))"
    by blast
  have "uint (sum_list (map (\<lambda>c. cpustat (kcpustat_cpu k c) idx) cpus)) =
          (\<Sum>c\<leftarrow>cpus. uint (cpustat (kcpustat_cpu k c) idx)) mod 2 ^ 64" for idx cpus
    by (simp add: uint_sum_list comp_def)
  with f have "\<forall>r \<in> set (cpu_usage_stat (CONFIG_SCHED_CORE k)).
        \<exists>v. t (field_name (reg_name r)) = Some v \<and>
          uint v =
            (\<Sum>c\<leftarrow>for_each_possible_cpu k. uint (cpustat (kcpustat_cpu k c) (reg_value r)))
              mod 2 ^ 64"
    by simp
  with t show ?thesis by blast
qed

section \<open>Values on the test systems\<close>



section \<open>The earlier version and the registry\<close>

lemma sum_counters_apply:
  "sum_counters kc cpus c =
     \<lparr>user = user c + sum_list (map (\<lambda>i. cpustat (kc i) CPUTIME_USER) cpus),
      nice = nice c + sum_list (map (\<lambda>i. cpustat (kc i) CPUTIME_NICE) cpus),
      system = system c + sum_list (map (\<lambda>i. cpustat (kc i) CPUTIME_SYSTEM) cpus),
      idle = idle c + sum_list (map (\<lambda>i. cpustat (kc i) CPUTIME_IDLE) cpus),
      iowait = iowait c + sum_list (map (\<lambda>i. cpustat (kc i) CPUTIME_IOWAIT) cpus),
      irq = irq c + sum_list (map (\<lambda>i. cpustat (kc i) CPUTIME_IRQ) cpus),
      softirq = softirq c + sum_list (map (\<lambda>i. cpustat (kc i) CPUTIME_SOFTIRQ) cpus),
      steal = steal c + sum_list (map (\<lambda>i. cpustat (kc i) CPUTIME_STEAL) cpus),
      guest = guest c + sum_list (map (\<lambda>i. cpustat (kc i) CPUTIME_GUEST) cpus),
      guest_nice = guest_nice c + sum_list (map (\<lambda>i. cpustat (kc i) CPUTIME_GUEST_NICE) cpus)\<rparr>"
  by (induction cpus arbitrary: c) (simp_all add: add_counters_def add.assoc)

lemma field_name_literals:
  "field_name ''USER'' = ''user''" "field_name ''NICE'' = ''nice''"
  "field_name ''SYSTEM'' = ''system''" "field_name ''SOFTIRQ'' = ''softirq''"
  "field_name ''IRQ'' = ''irq''" "field_name ''IDLE'' = ''idle''"
  "field_name ''IOWAIT'' = ''iowait''" "field_name ''STEAL'' = ''steal''"
  "field_name ''GUEST'' = ''guest''" "field_name ''GUEST_NICE'' = ''guest_nice''"
  by code_simp+

lemma set_fields_no_sched_core:
  "set_fields (cpu_usage_stat False) stats Map.empty =
     push_counters
       \<lparr>user = stats CPUTIME_USER, nice = stats CPUTIME_NICE, system = stats CPUTIME_SYSTEM,
        idle = stats CPUTIME_IDLE, iowait = stats CPUTIME_IOWAIT, irq = stats CPUTIME_IRQ,
        softirq = stats CPUTIME_SOFTIRQ, steal = stats CPUTIME_STEAL,
        guest = stats CPUTIME_GUEST, guest_nice = stats CPUTIME_GUEST_NICE\<rparr>"
  by (rule ext) (simp add: cpu_usage_stat_def push_counters_def field_name_literals)

lemma values_no_sched_core:
  "reg_value ` set (cpu_usage_stat False) =
     {CPUTIME_USER, CPUTIME_NICE, CPUTIME_SYSTEM, CPUTIME_SOFTIRQ, CPUTIME_IRQ, CPUTIME_IDLE,
      CPUTIME_IOWAIT, CPUTIME_STEAL, CPUTIME_GUEST, CPUTIME_GUEST_NICE}"
  by (simp add: cpu_usage_stat_def)

lemma single_tables_equal:
  "set_fields (cpu_usage_stat False) (copy_stats (cpu_usage_stat False) kcs (\<lambda>_. 0)) Map.empty =
     push_counters (read_counters kcs)"
  unfolding set_fields_no_sched_core
  by (simp add: copy_stats_apply values_no_sched_core read_counters_def)

lemma aggregate_tables_equal:
  "set_fields (cpu_usage_stat False)
     (aggregate_stats (cpu_usage_stat False) kc cpus (\<lambda>_. 0)) Map.empty =
     push_counters (sum_counters kc cpus zero_counters)"
  unfolding set_fields_no_sched_core sum_counters_apply
  by (simp add: aggregate_stats_apply distinct_reg_values values_no_sched_core zero_counters_def)

section \<open>Claims\<close>


text \<open>
  C2. The claim: with no argument or with any negative integer argument, \<open>get\<close> returns the
  aggregate snapshot. The code narrows the Lua integer to C's \<open>int\<close> first, so the negative
  Lua integer \<open>-4294967296\<close> becomes processor index 0: on the 4-processor test system the
  call returns processor 0's snapshot, which is not the aggregate. For no argument and for
  the negative arguments that fit \<open>int\<close>, \<open>get_aggregate_sums\<close> shows the aggregate.
\<close>

theorem get_negative_index_wraps_to_cpu0:
  "sint (- 4294967296 :: lua_Integer) < 0 \<and>
   luacpustat_get kernel4 (Some (- 4294967296)) = luacpustat_get kernel4 (Some 0) \<and>
   luacpustat_get kernel4 (Some (- 4294967296)) \<noteq> luacpustat_get kernel4 None"
proof -
  have a: "luacpustat_get kernel4 (Some (- 4294967296)) = luacpustat_get kernel4 (Some 0)"
    by (rule get_cong_cpu) (simp add: luaL_optinteger_def)
  have "luacpustat_get kernel4 (Some 0) \<noteq> luacpustat_get kernel4 None"
    using kernel4_cpu0_idle kernel4_all_idle by auto
  with a show ?thesis by simp
qed

text \<open>
  C3. The claim: \<open>get(i)\<close> fails if and only if \<open>i \<ge> count()\<close>. The narrowing to \<open>int\<close> turns the
  Lua integer \<open>4294967296\<close> into processor index 0: on the 4-processor test system the call
  succeeds with processor 0's snapshot although the index is not below \<open>count()\<close>. For the
  indices that fit \<open>int\<close>, \<open>get_fails_iff\<close> and \<open>get_error\<close> show the claimed check.
\<close>

theorem get_large_index_wraps_to_cpu0:
  "sint (luacpustat_count kernel4) \<le> sint (4294967296 :: lua_Integer) \<and>
   luacpustat_get kernel4 (Some 4294967296) = luacpustat_get kernel4 (Some 0) \<and>
   \<not> isl (luacpustat_get kernel4 (Some 4294967296))"
proof -
  have a: "luacpustat_get kernel4 (Some 4294967296) = luacpustat_get kernel4 (Some 0)"
    by (rule get_cong_cpu) (simp add: luaL_optinteger_def)
  have "\<not> isl (luacpustat_get kernel4 (Some 0))"
    using kernel4_cpu0_idle by auto
  moreover have "sint (luacpustat_count kernel4) \<le> sint (4294967296 :: lua_Integer)"
    by (simp add: sint_count kernel4_def)
  ultimately show ?thesis using a by simp
qed

text \<open>
  C4. For every call to \<open>get\<close> that returns a table, the set of keys of the table is exactly
  the set of field names produced by iterating the registry, and the table has exactly as
  many entries as the registry has rows: no field is missing and none is extra. A call with
  no argument, with a negative index or with an index below \<open>nr_cpu_ids\<close> (the index fitting
  C's \<open>int\<close>) does return a table.
\<close>

theorem get_keys_are_registry_names:
  "(\<forall>t. luacpustat_get k arg = Inr t \<longrightarrow>
      dom t = (\<lambda>r. field_name (reg_name r)) ` set (cpu_usage_stat (CONFIG_SCHED_CORE k)) \<and>
      card (dom t) = length (cpu_usage_stat (CONFIG_SCHED_CORE k))) \<and>
   (arg = None \<or>
    (\<exists>i. arg = Some i \<and> - (2 ^ 31) \<le> sint i \<and> sint i < 2 ^ 31 \<and> sint i < uint (nr_cpu_ids k))
    \<longrightarrow> (\<exists>t. luacpustat_get k arg = Inr t))"
proof -
  let ?regs = "cpu_usage_stat (CONFIG_SCHED_CORE k)"
  have "dom t = (\<lambda>r. field_name (reg_name r)) ` set ?regs \<and> card (dom t) = length ?regs"
    if "luacpustat_get k arg = Inr t" for t
  proof -
    from that obtain stats where "t = set_fields ?regs stats Map.empty"
      using get_Inr_set_fields by blast
    then have d: "dom t = (\<lambda>r. field_name (reg_name r)) ` set ?regs"
      by (simp add: dom_set_fields)
    have "card (set (map (\<lambda>r. field_name (reg_name r)) ?regs)) =
            length (map (\<lambda>r. field_name (reg_name r)) ?regs)"
      by (rule distinct_card) (rule distinct_field_names)
    with d show ?thesis by simp
  qed
  then show ?thesis using get_succeeds [of arg k] by blast
qed

theorem get_keys_are_registry_names_witness:
  "\<exists>t. luacpustat_get kernel4 None = Inr t \<and>
     dom t = {''user'', ''nice'', ''system'', ''idle'', ''iowait'', ''irq'', ''softirq'',
              ''steal'', ''guest'', ''guest_nice''} \<and>
     card (dom t) = 10"
proof -
  from get_keys_are_registry_names [of kernel4 None]
  obtain t where t: "luacpustat_get kernel4 None = Inr t"
    and d: "dom t = (\<lambda>r. field_name (reg_name r)) ` set (cpu_usage_stat (CONFIG_SCHED_CORE kernel4))"
    and n: "card (dom t) = length (cpu_usage_stat (CONFIG_SCHED_CORE kernel4))"
    by blast
  have c: "CONFIG_SCHED_CORE kernel4 = False"
    by (simp add: kernel4_def)
  have "dom t = {''user'', ''nice'', ''system'', ''idle'', ''iowait'', ''irq'', ''softirq'',
              ''steal'', ''guest'', ''guest_nice''}"
    unfolding d c field_name_image by (simp only: if_False Un_empty_right)
  moreover have "card (dom t) = 10"
    unfolding n c length_cpu_usage_stat by simp
  ultimately show ?thesis using t by blast
qed

text \<open>
  C5, the claim as stated: on a system where \<open>count()\<close> is 4, \<open>get(4)\<close> fails reporting
  bound 4. The error of the code carries \<open>nr_cpu_ids - 1\<close>: on the 4-processor test system
  it reports index 4 and maximum 3, not bound 4.
\<close>

theorem get_4_reports_max_3:
  "sint (luacpustat_count kernel4) = 4 \<and>
   luacpustat_get kernel4 (Some 4) = Inl (invalid_CPU_number 4 3) \<and>
   luacpustat_get kernel4 (Some 4) \<noteq> Inl (invalid_CPU_number 4 4)"
proof -
  have "luacpustat_get kernel4 (Some 4) = Inl (invalid_CPU_number 4 3)"
    using get_error [of 4 kernel4] by (simp add: kernel4_def)
  then show ?thesis by (simp add: sint_count kernel4_def)
qed

text \<open>
  C5, as amended. On a system where \<open>count()\<close> is 4, \<open>get(0)\<close>, \<open>get(1)\<close>, \<open>get(2)\<close> and
  \<open>get(3)\<close> succeed, and \<open>get(4)\<close> fails with the error that reports the offending index 4
  and the largest valid index 3, that is \<open>count() - 1\<close>.
\<close>

theorem get_on_four_cpus:
  assumes "sint (luacpustat_count k) = 4"
  shows "\<not> isl (luacpustat_get k (Some 0)) \<and> \<not> isl (luacpustat_get k (Some 1)) \<and>
         \<not> isl (luacpustat_get k (Some 2)) \<and> \<not> isl (luacpustat_get k (Some 3)) \<and>
         luacpustat_get k (Some 4) = Inl (invalid_CPU_number 4 3)"
proof -
  from assms have u: "uint (nr_cpu_ids k) = 4" by (simp add: sint_count)
  then have "uint (nr_cpu_ids k) = uint (4 :: 32 word)" by simp
  then have n: "nr_cpu_ids k = 4" by (simp only: word_uint_eq_iff)
  have "\<not> isl (luacpustat_get k (Some 0))" using get_single [of 0 k] u by simp
  moreover have "\<not> isl (luacpustat_get k (Some 1))" using get_single [of 1 k] u by simp
  moreover have "\<not> isl (luacpustat_get k (Some 2))" using get_single [of 2 k] u by simp
  moreover have "\<not> isl (luacpustat_get k (Some 3))" using get_single [of 3 k] u by simp
  moreover have "luacpustat_get k (Some 4) = Inl (invalid_CPU_number 4 3)"
    using get_error [of 4 k] u n by simp
  ultimately show ?thesis by blast
qed

theorem get_on_four_cpus_witness:
  "sint (luacpustat_count kernel4) = 4 \<and>
   \<not> isl (luacpustat_get kernel4 (Some 0)) \<and> \<not> isl (luacpustat_get kernel4 (Some 1)) \<and>
   \<not> isl (luacpustat_get kernel4 (Some 2)) \<and> \<not> isl (luacpustat_get kernel4 (Some 3)) \<and>
   luacpustat_get kernel4 (Some 4) = Inl (invalid_CPU_number 4 3)"
proof -
  have h: "sint (luacpustat_count kernel4) = 4"
    by (simp add: sint_count kernel4_def)
  from get_on_four_cpus [OF h] h show ?thesis by blast
qed

text \<open>
  C6. Every field name of a table returned by \<open>get\<close> is its registry row's symbolic name
  with each upper-case letter replaced by the lower-case one (\<open>lower_char\<close>), and the set of
  names is exactly user, nice, system, idle, iowait, irq, softirq, steal, guest, guest_nice,
  plus forceidle exactly when \<open>CONFIG_SCHED_CORE\<close> is set.
\<close>

theorem get_field_names_lowercase:
  assumes "luacpustat_get k arg = Inr t"
  shows "dom t = (\<lambda>r. map lower_char (reg_name r)) ` set (cpu_usage_stat (CONFIG_SCHED_CORE k)) \<and>
         dom t = {''user'', ''nice'', ''system'', ''idle'', ''iowait'', ''irq'', ''softirq'',
                  ''steal'', ''guest'', ''guest_nice''}
                 \<union> (if CONFIG_SCHED_CORE k then {''forceidle''} else {})"
proof -
  let ?regs = "cpu_usage_stat (CONFIG_SCHED_CORE k)"
  from assms obtain stats where "t = set_fields ?regs stats Map.empty"
    using get_Inr_set_fields by blast
  then have d: "dom t = (\<lambda>r. field_name (reg_name r)) ` set ?regs"
    by (simp add: dom_set_fields)
  have "(\<lambda>r. field_name (reg_name r)) ` set ?regs = (\<lambda>r. map lower_char (reg_name r)) ` set ?regs"
    by (intro image_cong refl field_name_short reg_names_short)
  with d show ?thesis by (simp add: field_name_image)
qed

theorem get_field_names_lowercase_witness:
  "\<exists>t. luacpustat_get kernel_hi (Some 1) = Inr t \<and>
     dom t = {''user'', ''nice'', ''system'', ''idle'', ''iowait'', ''irq'', ''softirq'',
              ''steal'', ''guest'', ''guest_nice''} \<union> {''forceidle''}"
proof -
  have "sint (1 :: lua_Integer) < uint (nr_cpu_ids kernel_hi)"
    by (simp add: kernel_hi_def)
  then obtain t where t: "luacpustat_get kernel_hi (Some 1) = Inr t"
    using get_single [of 1 kernel_hi] by simp
  have c: "CONFIG_SCHED_CORE kernel_hi = True"
    by (simp add: kernel_hi_def)
  from get_field_names_lowercase [OF t]
  have "dom t = {''user'', ''nice'', ''system'', ''idle'', ''iowait'', ''irq'', ''softirq'',
              ''steal'', ''guest'', ''guest_nice''}
            \<union> (if CONFIG_SCHED_CORE kernel_hi then {''forceidle''} else {})"
    by (rule conjunct2)
  then have "dom t = {''user'', ''nice'', ''system'', ''idle'', ''iowait'', ''irq'', ''softirq'',
              ''steal'', ''guest'', ''guest_nice''} \<union> {''forceidle''}"
    by (simp only: c if_True)
  with t show ?thesis by blast
qed

text \<open>
  C7. \<open>count()\<close> has no input and no error path; it returns \<open>nr_cpu_ids\<close> (the zero extension
  is read back unchanged), the bound that the range check of \<open>get\<close> compares against, and
  the result is positive whenever \<open>nr_cpu_ids\<close> is not zero, as on any running system.
\<close>

theorem count_is_nr_cpu_ids:
  "sint (luacpustat_count k) = uint (nr_cpu_ids k) \<and>
   (\<forall>i. 0 \<le> sint i \<and> sint i < 2 ^ 31 \<longrightarrow>
        (isl (luacpustat_get k (Some i)) \<longleftrightarrow> sint (luacpustat_count k) \<le> sint i)) \<and>
   (nr_cpu_ids k \<noteq> 0 \<longrightarrow> 0 < sint (luacpustat_count k))"
proof -
  have "0 < uint (nr_cpu_ids k)" if "nr_cpu_ids k \<noteq> 0"
  proof -
    from that have "uint (nr_cpu_ids k) \<noteq> 0" by (simp add: uint_0_iff)
    with uint_nonnegative [of "nr_cpu_ids k"] show ?thesis by linarith
  qed
  then show ?thesis
    by (simp add: sint_count get_fails_iff)
qed

theorem count_is_nr_cpu_ids_witness:
  "sint (luacpustat_count kernel4) = 4 \<and> isl (luacpustat_get kernel4 (Some 4)) \<and>
   \<not> isl (luacpustat_get kernel4 (Some 3)) \<and> 0 < sint (luacpustat_count kernel4)"
proof -
  from count_is_nr_cpu_ids [of kernel4] have
    c: "sint (luacpustat_count kernel4) = uint (nr_cpu_ids kernel4)"
    and r: "\<forall>i. 0 \<le> sint i \<and> sint i < 2 ^ 31 \<longrightarrow>
        (isl (luacpustat_get kernel4 (Some i)) \<longleftrightarrow> sint (luacpustat_count kernel4) \<le> sint i)"
    and p: "nr_cpu_ids kernel4 \<noteq> 0 \<longrightarrow> 0 < sint (luacpustat_count kernel4)"
    by blast+
  have n: "nr_cpu_ids kernel4 = 4" by (simp add: kernel4_def)
  from c n have c4: "sint (luacpustat_count kernel4) = 4" by simp
  from r [rule_format, of 4] c4 have "isl (luacpustat_get kernel4 (Some 4))" by simp
  moreover from r [rule_format, of 3] c4 have "\<not> isl (luacpustat_get kernel4 (Some 3))" by simp
  moreover from p n have "0 < sint (luacpustat_count kernel4)" by simp
  ultimately show ?thesis using c4 by simp
qed


text \<open>
  C9. The claim: every call to \<open>get\<close> whose index is omitted, negative, or within
  \<open>[0, count())\<close> returns a snapshot. The narrowing to \<open>int\<close> turns the negative Lua integer
  \<open>-4294967291\<close> into processor index 5: on the 4-processor test system the call raises the
  error.
\<close>

theorem get_negative_index_raises:
  "sint (- 4294967291 :: lua_Integer) < 0 \<and>
   luacpustat_get kernel4 (Some (- 4294967291)) = Inl (invalid_CPU_number 5 3)"
  by (simp add: luacpustat_get_def luaL_optinteger_def kernel4_def)

text \<open>
  C10. Without \<open>CONFIG_SCHED_CORE\<close> (no forceidle row in the registry) the registry-driven
  \<open>luacpustat_get\<close> and the earlier version with one variable per counter return the same
  result for every argument: the same error, or tables with the same ten name/value pairs.
\<close>

theorem get_refines_old:
  assumes "\<not> CONFIG_SCHED_CORE k"
  shows "luacpustat_get k arg = luacpustat_get_old k arg"
  using assms
  by (simp add: luacpustat_get_def luacpustat_get_old_def Let_def single_tables_equal
      aggregate_tables_equal)

theorem get_refines_old_witness:
  "\<not> CONFIG_SCHED_CORE kernel4 \<and>
   luacpustat_get kernel4 (Some 2) = luacpustat_get_old kernel4 (Some 2) \<and>
   luacpustat_get kernel4 None = luacpustat_get_old kernel4 None \<and>
   luacpustat_get_old kernel4 (Some 4) = Inl (invalid_CPU_number 4 3)"
proof -
  have h: "\<not> CONFIG_SCHED_CORE kernel4" by (simp add: kernel4_def)
  have "luacpustat_get kernel4 (Some 4) = Inl (invalid_CPU_number 4 3)"
    using get_error [of 4 kernel4] by (simp add: kernel4_def)
  with get_refines_old [OF h, of "Some 4"]
  have "luacpustat_get_old kernel4 (Some 4) = Inl (invalid_CPU_number 4 3)" by simp
  with h get_refines_old [OF h, of "Some 2"] get_refines_old [OF h, of None]
  show ?thesis by blast
qed

end
